theory Spec2Isabelle
  imports Complex_Main "HOL-Library.Sublist"
begin

section \<open>Data model\<close>

text \<open>
  Values held by a configuration record: numbers, strings, lists (the \<open>modes\<close> and
  \<open>exclude\<close> directives) and nested mappings (the \<open>modifychem\<close> directive).
  A Python \<open>dict\<close> is a finite map from key to value; equality of maps is the
  order-insensitive equality of \<open>dict\<close>.
\<close>

datatype val = Num rat | Str string | Lst "val list" | Dict "string \<Rightarrow> val option"

type_synonym pydict = "string \<Rightarrow> val option"

text \<open>A path is the list of its components; \<open>dir / n\<close> appends one component.\<close>

type_synonym path = "string list"

definition joinpath :: "path \<Rightarrow> string \<Rightarrow> path" where
  "joinpath d n = d @ [n]"

datatype error =
    KeyError string
  | AttributeError string
  | NameError string
  | TypeError string
  | External string

text \<open>The messages handed to the batch logger (\<open>self.logger.info\<close>).\<close>

datatype logmsg =
    Estimated nat
  | Starting nat
  | Start string
  | Finished string
  | Complete rat

text \<open>The calls made on a process controller (\<open>MeltsProcess\<close>).\<close>

datatype call =
    New string string path
  | Write "nat list" bool bool
  | Terminate

text \<open>
  The collaborators that the automation module imports and whose code is not part of it.
  Each is a parameter: a function that may raise (\<open>Inl\<close>), the controller answering
  each call with the error it raises, if any. \<open>make_meltsfolder\<close> returns the file system
  it leaves behind also when it raises. \<open>chem\<close> is the module constant \<open>__chem__\<close>, and
  \<open>key_order\<close> is the order in which a \<open>dict\<close> yields its keys (its insertion order,
  which a map does not record).
\<close>

record collab =
  exp_name :: "pydict \<Rightarrow> string"
  dict_to_meltsfile :: "pydict \<Rightarrow> val \<Rightarrow> val list \<Rightarrow> error + string"
  read_meltsfile :: "string \<Rightarrow> error + string \<times> string"
  read_envfile :: "string \<Rightarrow> error + string \<times> string"
  make_meltsfolder ::
    "string \<Rightarrow> string \<Rightarrow> path \<Rightarrow> string \<Rightarrow> path set \<Rightarrow> (error + path) \<times> path set"
  controller :: "call \<Rightarrow> error option"
  MELTS_Env :: string
  chem :: "string set"
  key_order :: "pydict \<Rightarrow> string list"

section \<open>Grid expansion and the experiment set\<close>

text \<open>
  Modelled from the spec: \<open>combine_choices\<close> is imported from \<open>pyrolite.util.multip\<close>
  and is not in the repository. Section 4.1: every combination formed by choosing exactly
  one value per key, the Cartesian product over the keys' value lists, the first key
  outermost; an empty choice grid gives the single empty combination.
\<close>

fun combine_choices :: "(string \<times> val list) list \<Rightarrow> pydict list" where
  "combine_choices [] = [Map.empty]"
| "combine_choices ((k, vs) # rest) =
     concat (map (\<lambda>v. map (\<lambda>m. m(k \<mapsto> v)) (combine_choices rest)) vs)"

record batch =
  dir :: path
  default_config :: pydict
  env :: string
  configs :: "pydict list"
  compositions :: "pydict list"
  experiments :: "(string \<times> pydict \<times> string) list"
  est_duration :: nat
  started :: "rat option"
  duration :: "rat option"
  paths :: "path list option"

text \<open>\<open>env or MELTS_Env()\<close>: the default environment replaces a missing or empty one.\<close>

definition env_or :: "collab \<Rightarrow> string option \<Rightarrow> string" where
  "env_or C e = (case e of None \<Rightarrow> MELTS_Env C | Some s \<Rightarrow> if s = [] then MELTS_Env C else s)"

text \<open>
  Lines 169 to 171 of \<open>MeltsBatch.__init__\<close>: the list starts as \<open>[{**default}]\<close>; the
  comprehension is evaluated while the list still holds that one record and tests the
  combination \<open>i\<close> itself against it.
\<close>

definition expand_configs :: "pydict \<Rightarrow> pydict list \<Rightarrow> pydict list" where
  "expand_configs D grid =
     (let configs0 = [D]
      in configs0 @ map (\<lambda>i. D ++ i) (filter (\<lambda>i. i \<notin> set configs0) grid))"

text \<open>Lines 174 to 177: \<open>{**cfg, **cmp}\<close> over \<open>itertools.product(configs, compositions)\<close>.\<close>

definition exprs_of :: "pydict list \<Rightarrow> pydict list \<Rightarrow> pydict list" where
  "exprs_of cfgs cmps = concat (map (\<lambda>cfg. map (\<lambda>cmp. cfg ++ cmp) cmps) cfgs)"

text \<open>
  \<open>MeltsBatch.__init__\<close>. The compositions are the records of the data frame
  (\<open>comp_df.to_dict("records")\<close>). The constructor has no failing branch of its own; it
  returns the batch and the message it logs.
\<close>

definition MeltsBatch_init ::
  "collab \<Rightarrow> pydict list \<Rightarrow> path \<Rightarrow> pydict \<Rightarrow> (string \<times> val list) list \<Rightarrow> string option
     \<Rightarrow> batch \<times> logmsg list" where
  "MeltsBatch_init C comp_df fromdir default_cfg config_grid e =
     (let env0 = env_or C e;
          grid = combine_choices config_grid;
          cfgs = expand_configs default_cfg grid;
          exprs = exprs_of cfgs comp_df;
          exps = map (\<lambda>expr. (exp_name C expr, expr, env0)) exprs;
          est = length exps * 6
      in (\<lparr> dir = fromdir, default_config = default_cfg, env = env0, configs = cfgs,
            compositions = comp_df, experiments = exps, est_duration = est,
            started = None, duration = None, paths = None \<rparr>,
          [Estimated est]))"

section \<open>A single experiment\<close>

datatype outcome = Returned | Raised error

record MeltsExperiment =
  title :: string
  edir :: path
  elog :: "string list"
  meltsfile :: string
  envfile :: string
  folder :: path
  meltsfilepath :: path
  envfilepath :: path

text \<open>
  \<open>MeltsExperiment.__init__\<close> with \<open>set_meltsfile\<close>, \<open>set_envfile\<close> and \<open>_make_folder\<close>.
  Without a meltsfile the attribute read by \<open>_make_folder\<close> does not exist.
\<close>

definition MeltsExperiment_init ::
  "collab \<Rightarrow> string \<Rightarrow> path \<Rightarrow> string option \<Rightarrow> string option \<Rightarrow> path set
     \<Rightarrow> (error + MeltsExperiment) \<times> path set" where
  "MeltsExperiment_init C ttl d mf e files =
     (case (case mf of None \<Rightarrow> Inr None
            | Some m \<Rightarrow> (case read_meltsfile C m of Inl er \<Rightarrow> Inl er
                         | Inr (f, p) \<Rightarrow> Inr (Some f))) of
        Inl er \<Rightarrow> (Inl er, files)
      | Inr mfo \<Rightarrow>
          (case read_envfile C (case e of None \<Rightarrow> MELTS_Env C | Some x \<Rightarrow> x) of
             Inl er \<Rightarrow> (Inl er, files)
           | Inr (ef, ep) \<Rightarrow>
               (case mfo of
                  None \<Rightarrow> (Inl (AttributeError ''meltsfile''), files)
                | Some f \<Rightarrow>
                    (case make_meltsfolder C f ttl d ef files of
                       (Inl er, files') \<Rightarrow> (Inl er, files')
                     | (Inr fld, files') \<Rightarrow>
                         (Inr \<lparr> title = ttl, edir = d, elog = [], meltsfile = f, envfile = ef,
                                folder = fld,
                                meltsfilepath = joinpath fld (ttl @ ''.melts''),
                                envfilepath = joinpath fld ''environment.txt'' \<rparr>,
                          files')))))"

text \<open>
  \<open>MeltsExperiment.run\<close>: the controller is created, written to and terminated; a call
  that raises ends the method. The result carries the calls made, in order.
  \<open>[0, 1][superliquidus_start]\<close> indexes the list with the flag (\<open>True\<close> is 1).
\<close>

definition MeltsExperiment_run ::
  "collab \<Rightarrow> MeltsExperiment \<Rightarrow> bool \<Rightarrow> bool \<Rightarrow> outcome \<times> call list" where
  "MeltsExperiment_run C M log_flag superliquidus_start =
     (let c1 = New (title M @ ''.melts'') ''environment.txt'' (folder M) in
      case controller C c1 of
        Some er \<Rightarrow> (Raised er, [c1])
      | None \<Rightarrow>
          (let c2 = Write [3, [0, 1] ! (if superliquidus_start then 1 else 0), 4] True log_flag in
           case controller C c2 of
             Some er \<Rightarrow> (Raised er, [c1, c2])
           | None \<Rightarrow>
               (case controller C Terminate of
                  Some er \<Rightarrow> (Raised er, [c1, c2, Terminate])
                | None \<Rightarrow> (Returned, [c1, c2, Terminate]))))"

section \<open>Running a batch\<close>

text \<open>
  The state that \<open>MeltsBatch.run\<close> reads and writes: the batch object, the two list
  objects that the name \<open>exclude\<close> can be bound to (the default of the method, created
  once, and the list of the caller), the folders that exist, the log and the calls made
  on process controllers.
\<close>

record state =
  self :: batch
  run_defaults :: "val list"
  caller_list :: "val list"
  fs :: "path set"
  logged :: "logmsg list"
  calls :: "call list"

datatype lref = DefaultList | CallerList

definition deref :: "lref \<Rightarrow> state \<Rightarrow> val list" where
  "deref r s = (case r of DefaultList \<Rightarrow> run_defaults s | CallerList \<Rightarrow> caller_list s)"

definition assign :: "lref \<Rightarrow> val list \<Rightarrow> state \<Rightarrow> state" where
  "assign r l s = (case r of DefaultList \<Rightarrow> s\<lparr>run_defaults := l\<rparr> | CallerList \<Rightarrow> s\<lparr>caller_list := l\<rparr>)"

text \<open>
  \<open>list += x\<close> extends the list in place with the items of \<open>x\<close>: the elements of a list,
  the characters of a string, the keys of a dict; a number is not iterable.
\<close>

definition list_extend :: "collab \<Rightarrow> val list \<Rightarrow> val \<Rightarrow> error + val list" where
  "list_extend C l v =
     (case v of
        Lst xs \<Rightarrow> Inr (l @ xs)
      | Str str \<Rightarrow> Inr (l @ map (\<lambda>c. Str [c]) str)
      | Dict d \<Rightarrow> Inr (l @ map Str (key_order C d))
      | Num x \<Rightarrow> Inl (TypeError ''not iterable''))"

text \<open>
  Lines 200 to 208, entered when the record has the key \<open>modifychem\<close>. The directive is
  popped, then looked up again in the record it was popped from; the overlay and the
  scaling come after that lookup, and the scaling needs \<open>np\<close>, which the module does not
  import. The result is the outcome and the record as the block leaves it.
\<close>

definition modifychem_block :: "collab \<Rightarrow> pydict \<Rightarrow> outcome \<times> pydict" where
  "modifychem_block C exp0 =
     (case exp0 ''modifychem'' of
        None \<Rightarrow> (Raised (KeyError ''modifychem''), exp0)
      | Some modifications \<Rightarrow>
          (let exp1 = exp0(''modifychem'' := None) in
           case modifications of
             Dict mods \<Rightarrow>
               (let ek = dom exp1; mk = dom mods in
                case exp1 ''modifychem'' of
                  None \<Rightarrow> (Raised (KeyError ''modifychem''), exp1)
                | Some (Dict items) \<Rightarrow>
                    (let exp2 = exp1 ++ items;
                         allchem = (ek \<union> mk) \<inter> chem C;
                         unmodified = (ek - mk) \<inter> chem C
                     in (Raised (NameError ''np''), exp2))
                | Some _ \<Rightarrow> (Raised (AttributeError ''items''), exp1))
           | _ \<Rightarrow> (Raised (AttributeError ''keys''), exp1)))"

definition set_exp :: "nat \<Rightarrow> pydict \<Rightarrow> state \<Rightarrow> state" where
  "set_exp i exp0 s =
     (case experiments (self s) ! i of
        (n, old, e) \<Rightarrow> s\<lparr>self := (self s)\<lparr>experiments := (experiments (self s))[i := (n, exp0, e)]\<rparr>\<rparr>)"

text \<open>
  Lines 210 to 212 for a record \<open>e\<close>: \<open>exp_exclude\<close> is another name of the list object
  \<open>r\<close>; the directive is popped and the list extended in place. The result is the
  outcome, the record without the directive and the state.
\<close>

definition apply_exclude :: "collab \<Rightarrow> lref \<Rightarrow> pydict \<Rightarrow> state \<Rightarrow> outcome \<times> pydict \<times> state" where
  "apply_exclude C r e s =
     (case e ''exclude'' of
        None \<Rightarrow> (Returned, e, s)
      | Some v \<Rightarrow>
          (let e2 = e(''exclude'' := None) in
           case list_extend C (deref r s) v of
             Inl er \<Rightarrow> (Raised er, e2, s)
           | Inr l \<Rightarrow> (Returned, e2, assign r l s)))"

text \<open>
  Lines 216 to 220: the start is logged, the record rendered with the list \<open>r\<close> as the
  exclusions, the experiment created (which makes its folder) and run, and the end logged.
\<close>

definition launch ::
  "collab \<Rightarrow> lref \<Rightarrow> bool \<Rightarrow> string \<Rightarrow> pydict \<Rightarrow> string \<Rightarrow> state \<Rightarrow> outcome \<times> state" where
  "launch C r superliquidus_start name e env0 s =
     (let s3 = s\<lparr>logged := logged s @ [Start name]\<rparr> in
      case e ''modes'' of
        None \<Rightarrow> (Raised (KeyError ''modes''), s3)
      | Some modes \<Rightarrow>
          (case dict_to_meltsfile C e modes (deref r s3) of
             Inl er \<Rightarrow> (Raised er, s3)
           | Inr mf \<Rightarrow>
               (case MeltsExperiment_init C name (dir (self s3)) (Some mf) (Some env0) (fs s3) of
                  (Inl er, files) \<Rightarrow> (Raised er, s3\<lparr>fs := files\<rparr>)
                | (Inr M, files) \<Rightarrow>
                    (case MeltsExperiment_run C M False superliquidus_start of
                       (out, cs) \<Rightarrow>
                         (let s4 = s3\<lparr>fs := files, calls := calls s3 @ cs\<rparr> in
                          case out of
                            Raised er \<Rightarrow> (Raised er, s4)
                          | Returned \<Rightarrow>
                              (Returned, s4\<lparr>logged := logged s4 @ [Finished name]\<rparr>))))))"

text \<open>
  The body of the loop for the experiment at position \<open>i\<close> of \<open>self.experiments\<close>
  (lines 199 to 220). The record is a dict object shared with \<open>self.experiments\<close>, so
  what the body pops from it is written back at \<open>i\<close>. \<open>r\<close> is the list object bound to
  \<open>exclude\<close>.
\<close>

definition run_body :: "collab \<Rightarrow> lref \<Rightarrow> bool \<Rightarrow> nat \<Rightarrow> state \<Rightarrow> outcome \<times> state" where
  "run_body C r superliquidus_start i s =
     (case experiments (self s) ! i of
        (name, exp0, env0) \<Rightarrow>
          (case (if ''modifychem'' \<in> dom exp0 then modifychem_block C exp0 else (Returned, exp0)) of
             (Raised er, exp1) \<Rightarrow> (Raised er, set_exp i exp1 s)
           | (Returned, exp1) \<Rightarrow>
               (case apply_exclude C r exp1 s of
                  (Raised er, exp2, s1) \<Rightarrow> (Raised er, set_exp i exp2 s1)
                | (Returned, exp2, s1) \<Rightarrow>
                    launch C r superliquidus_start name exp2 env0 (set_exp i exp2 s1))))"

text \<open>The \<open>for\<close> loop: no handler surrounds the body, so an error ends the loop.\<close>

fun run_loop :: "collab \<Rightarrow> lref \<Rightarrow> bool \<Rightarrow> nat list \<Rightarrow> state \<Rightarrow> outcome \<times> state" where
  "run_loop C r sls [] s = (Returned, s)"
| "run_loop C r sls (i # rest) s =
     (case run_body C r sls i s of
        (Raised er, s') \<Rightarrow> (Raised er, s')
      | (Returned, s') \<Rightarrow> run_loop C r sls rest s')"

text \<open>
  Lines 186 to 192: the experiments handed to the loop, as positions in
  \<open>self.experiments\<close> (the filtered list holds the same tuples, in the same order).
\<close>

definition selected :: "bool \<Rightarrow> state \<Rightarrow> nat list" where
  "selected overwrite s =
     (let all = [0..<length (experiments (self s))] in
      if \<not> overwrite
      then filter (\<lambda>i. case experiments (self s) ! i of
                          (n, cfg, e) \<Rightarrow> joinpath (dir (self s)) n \<notin> fs s) all
      else all)"

text \<open>
  The name \<open>exclude\<close> is bound to the default list object of the method when the argument
  is omitted, and to the caller's list otherwise.
\<close>

definition exclude_ref :: "val list option \<Rightarrow> lref" where
  "exclude_ref exclude = (case exclude of None \<Rightarrow> DefaultList | Some l \<Rightarrow> CallerList)"

text \<open>
  Lines 185 to 194 of \<open>MeltsBatch.run\<close>: the start time is stored, the experiments are
  selected and their number is logged. \<open>t0\<close> is the reading of \<open>time.time()\<close>.
\<close>

definition run_entry :: "bool \<Rightarrow> val list option \<Rightarrow> rat \<Rightarrow> state \<Rightarrow> nat list \<times> state" where
  "run_entry overwrite exclude t0 s =
     (let s1 = s\<lparr>self := (self s)\<lparr>started := Some t0\<rparr>\<rparr>;
          s2 = (case exclude of None \<Rightarrow> s1 | Some l \<Rightarrow> s1\<lparr>caller_list := l\<rparr>);
          idxs = selected overwrite s2
      in (idxs, s2\<lparr>logged := logged s2 @ [Starting (length idxs)]\<rparr>))"

text \<open>
  \<open>MeltsBatch.run\<close>. \<open>t1\<close> is the reading of \<open>time.time()\<close> at line 221. \<open>paths\<close> is
  created empty at line 195 and stored at line 223; no statement in between touches it.
\<close>

definition MeltsBatch_run ::
  "collab \<Rightarrow> bool \<Rightarrow> val list option \<Rightarrow> bool \<Rightarrow> rat \<Rightarrow> rat \<Rightarrow> state \<Rightarrow> outcome \<times> state" where
  "MeltsBatch_run C overwrite exclude superliquidus_start t0 t1 s =
     (case run_entry overwrite exclude t0 s of
        (idxs, s3) \<Rightarrow>
          (let paths0 = [] in
           case run_loop C (exclude_ref exclude) superliquidus_start idxs s3 of
             (Raised er, s4) \<Rightarrow> (Raised er, s4)
           | (Returned, s4) \<Rightarrow>
               (case started (self s4) of
                  None \<Rightarrow> (Raised (AttributeError ''started''), s4)
                | Some st \<Rightarrow>
                    (Returned,
                     s4\<lparr>self := (self s4)\<lparr>duration := Some (t1 - st), paths := Some paths0\<rparr>,
                        logged := logged s4 @ [Complete (t1 - st)]\<rparr>))))"

section \<open>Concrete inputs\<close>

text \<open>
  Stand-ins for the collaborators, used where a statement is evaluated on an input: a
  namer that reads the record's \<open>Title\<close>, a controller that cannot start the run named
  \<open>bad\<close>, and readers, renderer and folder maker that always succeed.
\<close>

definition title_namer :: "pydict \<Rightarrow> string" where
  "title_namer e = (case e ''Title'' of Some (Str t) \<Rightarrow> t | _ \<Rightarrow> ''untitled'')"

definition ctl0 :: "call \<Rightarrow> error option" where
  "ctl0 c =
     (case c of
        New mf e d \<Rightarrow> if mf = ''bad.melts'' then Some (External ''ProcessSpawnError'') else None
      | _ \<Rightarrow> None)"

definition C0 :: collab where
  "C0 = \<lparr> exp_name = title_namer,
          dict_to_meltsfile = (\<lambda>e m x. Inr ''meltsfile''),
          read_meltsfile = (\<lambda>m. Inr (m, ''meltsfile path'')),
          read_envfile = (\<lambda>e. Inr (e, ''envfile path'')),
          make_meltsfolder =
            (\<lambda>mf ttl d ef files. (Inr (joinpath d ttl), insert (joinpath d ttl) files)),
          controller = ctl0,
          MELTS_Env = ''default env'',
          chem = {''SiO2'', ''MgO''},
          key_order = (\<lambda>d. filter (\<lambda>k. k \<in> dom d) [''SiO2'', ''MgO'']) \<rparr>"

definition fresh :: "batch \<Rightarrow> path set \<Rightarrow> state" where
  "fresh B files =
     \<lparr> self = B, run_defaults = [], caller_list = [], fs = files, logged = [], calls = [] \<rparr>"

definition D_ab :: pydict where
  "D_ab = [''a'' \<mapsto> Num 1, ''b'' \<mapsto> Num 2]"

definition grid_a :: "(string \<times> val list) list" where
  "grid_a = [(''a'', [Num 1])]"

definition grid_ac :: "(string \<times> val list) list" where
  "grid_ac = [(''a'', [Num 1, Num 3]), (''c'', [Num 5])]"

definition D_P :: pydict where
  "D_P = [''Initial Pressure'' \<mapsto> Num 5000, ''modes'' \<mapsto> Lst [Str ''isobaric'']]"

definition grid_P :: "(string \<times> val list) list" where
  "grid_P = [(''Initial Pressure'', [Num 7000, Num 10000])]"

definition comp_A :: pydict where
  "comp_A = [''Title'' \<mapsto> Str ''A'', ''SiO2'' \<mapsto> Num 60, ''MgO'' \<mapsto> Num 40,
             ''modes'' \<mapsto> Lst [Str ''isobaric'']]"

definition comp_A2 :: pydict where
  "comp_A2 = [''Title'' \<mapsto> Str ''A'', ''SiO2'' \<mapsto> Num 50, ''MgO'' \<mapsto> Num 50,
             ''modes'' \<mapsto> Lst [Str ''isobaric'']]"

definition comp_B :: pydict where
  "comp_B = [''Title'' \<mapsto> Str ''B'', ''SiO2'' \<mapsto> Num 55, ''MgO'' \<mapsto> Num 45,
             ''modes'' \<mapsto> Lst [Str ''isobaric'']]"

definition comp_bad :: pydict where
  "comp_bad = [''Title'' \<mapsto> Str ''bad'', ''modes'' \<mapsto> Lst [Str ''isobaric'']]"

definition comp_good :: pydict where
  "comp_good = [''Title'' \<mapsto> Str ''good'', ''modes'' \<mapsto> Lst [Str ''isobaric'']]"

definition comp_mod :: pydict where
  "comp_mod = [''Title'' \<mapsto> Str ''m'', ''SiO2'' \<mapsto> Num 60, ''MgO'' \<mapsto> Num 40,
               ''modes'' \<mapsto> Lst [Str ''isobaric''],
               ''modifychem'' \<mapsto> Dict [''MgO'' \<mapsto> Num 30]]"



text \<open>Batches built by the constructor from these compositions, with an empty default
  configuration and an empty choice grid.\<close>

definition batch_of :: "pydict list \<Rightarrow> batch" where
  "batch_of comps = fst (MeltsBatch_init C0 comps [''.''] Map.empty [] None)"

definition M0 :: MeltsExperiment where
  "M0 = \<lparr> title = ''good'', edir = [''.''], elog = [], meltsfile = ''meltsfile'',
          envfile = ''default env'', folder = [''.'', ''good''],
          meltsfilepath = [''.'', ''good'', ''good.melts''],
          envfilepath = [''.'', ''good'', ''environment.txt''] \<rparr>"

section \<open>Statement vocabulary\<close>

text \<open>The name and the record of the experiment at position \<open>i\<close> of \<open>self.experiments\<close>.\<close>

definition name_at :: "state \<Rightarrow> nat \<Rightarrow> string" where
  "name_at s i = fst (experiments (self s) ! i)"

definition record_at :: "state \<Rightarrow> nat \<Rightarrow> pydict" where
  "record_at s i = fst (snd (experiments (self s) ! i))"

text \<open>The items that \<open>exclude += e.pop("exclude")\<close> appends for a record \<open>e\<close>.\<close>

definition exclude_items :: "collab \<Rightarrow> pydict \<Rightarrow> val list" where
  "exclude_items C e =
     (case e ''exclude'' of
        None \<Rightarrow> []
      | Some v \<Rightarrow> (case list_extend C [] v of Inl er \<Rightarrow> [] | Inr l \<Rightarrow> l))"

section \<open>Facts about maps and lists\<close>

lemma map_neq: "m k \<noteq> m' k \<Longrightarrow> m \<noteq> m'"
  by auto

lemma length_concat_const:
  "(\<And>x. x \<in> set xs \<Longrightarrow> length (f x) = n) \<Longrightarrow> length (concat (map f xs)) = length xs * n"
  by (induction xs) simp_all

section \<open>The expanded configuration list\<close>

lemma length_combine_choices:
  "length (combine_choices ch) = prod_list (map (\<lambda>(k, vs). length vs) ch)"
proof (induction ch)
  case Nil
  show ?case by simp
next
  case (Cons a ch)
  obtain k vs where a: "a = (k, vs)" by (cases a)
  have "length (combine_choices ((k, vs) # ch)) = length vs * length (combine_choices ch)"
    by (simp add: length_concat_const)
  with Cons a show ?case by simp
qed

lemma expand_configs_eq:
  "expand_configs D grid = D # map (\<lambda>i. D ++ i) (filter (\<lambda>i. i \<noteq> D) grid)"
  by (simp add: expand_configs_def)

lemma length_expand_configs:
  "length (expand_configs D grid) = 1 + length (filter (\<lambda>i. i \<noteq> D) grid)"
  by (simp add: expand_configs_eq)

lemma filter_full_iff: "length (filter P xs) = length xs \<longleftrightarrow> (\<forall>x\<in>set xs. P x)"
  by (metis filter_id_conv filter_True length_filter_less less_irrefl)

text \<open>
  C4 (grid expansion drops every record identical to one already present; an empty grid
  gives exactly the default). The test of line 171 compares the combination itself, not
  the merged record, with the default: with default \<open>{a: 1, b: 2}\<close> and choices
  \<open>{a: [1]}\<close> the merged record equals the default and is kept, and with an empty grid
  the empty combination is merged and kept as well, so the default appears twice.
\<close>

theorem expand_configs_keeps_duplicate:
  "expand_configs D_ab (combine_choices grid_a) = [D_ab, D_ab]
   \<and> expand_configs D_ab (combine_choices []) = [D_ab, D_ab]"
proof -
  have 1: "[''a'' \<mapsto> Num 1] \<noteq> D_ab"
    by (rule map_neq [of _ "''b''"]) (simp add: D_ab_def)
  have 2: "Map.empty \<noteq> D_ab"
    by (rule map_neq [of _ "''b''"]) (simp add: D_ab_def)
  have 3: "D_ab ++ [''a'' \<mapsto> Num 1] = D_ab"
    by (simp add: D_ab_def fun_eq_iff map_add_def)
  from 1 2 3 show ?thesis
    by (simp add: expand_configs_eq grid_a_def)
qed

text \<open>
  C7 (length of the expanded list). For a choice grid whose value lists have sizes
  \<open>k1, ..., kn\<close> the expanded list has at most \<open>1 + k1 * ... * kn\<close> records; it has
  exactly that many if and only if no combination is equal to the default, and in
  particular whenever no merged combination reproduces the default.
\<close>

theorem expand_configs_length_bound:
  "length (expand_configs D (combine_choices ch)) \<le> 1 + prod_list (map (\<lambda>(k, vs). length vs) ch)
   \<and> (length (expand_configs D (combine_choices ch)) = 1 + prod_list (map (\<lambda>(k, vs). length vs) ch)
        \<longleftrightarrow> D \<notin> set (combine_choices ch))
   \<and> ((\<forall>i\<in>set (combine_choices ch). D ++ i \<noteq> D) \<longrightarrow>
        length (expand_configs D (combine_choices ch)) = 1 + prod_list (map (\<lambda>(k, vs). length vs) ch))"
proof -
  let ?g = "combine_choices ch"
  have le: "length (filter (\<lambda>i. i \<noteq> D) ?g) \<le> length ?g" by simp
  have eq: "length (filter (\<lambda>i. i \<noteq> D) ?g) = length ?g \<longleftrightarrow> D \<notin> set ?g"
    using filter_full_iff [of "\<lambda>i. i \<noteq> D" ?g] by auto
  have imp: "(\<forall>i\<in>set ?g. D ++ i \<noteq> D) \<Longrightarrow> D \<notin> set ?g"
    by (metis map_add_subsumed1 map_le_refl)
  from le eq imp show ?thesis
    by (simp add: length_expand_configs length_combine_choices [symmetric]) 
qed

theorem expand_configs_length_bound_witness:
  "D_ab \<notin> set (combine_choices grid_ac)
   \<and> length (expand_configs D_ab (combine_choices grid_ac)) = 1 + 2 * 1"
proof -
  have 1: "D_ab ++ [''c'' \<mapsto> Num 5, ''a'' \<mapsto> Num 1] \<noteq> D_ab"
    by (rule map_neq [of _ "''c''"]) (simp add: D_ab_def)
  have 2: "D_ab ++ [''c'' \<mapsto> Num 5, ''a'' \<mapsto> Num 3] \<noteq> D_ab"
    by (rule map_neq [of _ "''c''"]) (simp add: D_ab_def)
  have 3: "[''c'' \<mapsto> Num 5, ''a'' \<mapsto> Num 1] \<noteq> D_ab"
    by (rule map_neq [of _ "''c''"]) (simp add: D_ab_def)
  have 4: "[''c'' \<mapsto> Num 5, ''a'' \<mapsto> Num 3] \<noteq> D_ab"
    by (rule map_neq [of _ "''c''"]) (simp add: D_ab_def)
  have h: "\<forall>i\<in>set (combine_choices grid_ac). D_ab ++ i \<noteq> D_ab"
    using 1 2 by (simp add: grid_ac_def)
  have n: "D_ab \<notin> set (combine_choices grid_ac)"
    using 3 4 by (auto simp add: grid_ac_def)
  from expand_configs_length_bound [of D_ab grid_ac] h n show ?thesis
    by (simp add: grid_ac_def)
qed


section \<open>The experiment set\<close>

lemma length_exprs_of: "length (exprs_of cfgs cmps) = length cfgs * length cmps"
  by (simp add: exprs_of_def length_concat_const)

lemma set_exprs_of: "set (exprs_of cfgs cmps) = {cfg ++ cmp | cfg cmp. cfg \<in> set cfgs \<and> cmp \<in> set cmps}"
  by (auto simp add: exprs_of_def)

lemma init_fields:
  assumes "B = fst (MeltsBatch_init C comps d D ch e)"
  shows "experiments B = map (\<lambda>x. (exp_name C x, x, env B)) (exprs_of (configs B) (compositions B))"
    and "configs B = expand_configs D (combine_choices ch)"
    and "compositions B = comps"
    and "dir B = d"
  using assms by (simp_all add: MeltsBatch_init_def Let_def)

text \<open>
  C6 (size of the experiment set). The experiment set built by the constructor has
  (number of configurations) times (number of compositions) entries, each the triple of
  the name, the merged record and the environment of one configuration and one
  composition. The instance: one default and two grid combinations crossed with two
  compositions give six entries.
\<close>

theorem experiment_set_size:
  assumes "B = fst (MeltsBatch_init C comps d D ch e)"
  shows "length (experiments B) = length (configs B) * length (compositions B)
     \<and> experiments B = map (\<lambda>x. (exp_name C x, x, env B)) (exprs_of (configs B) (compositions B))
     \<and> (\<forall>t\<in>set (experiments B). \<exists>cfg\<in>set (configs B). \<exists>cmp\<in>set (compositions B).
           t = (exp_name C (cfg ++ cmp), cfg ++ cmp, env B))"
proof -
  note ex = init_fields(1) [OF assms]
  have "length (experiments B) = length (configs B) * length (compositions B)"
    by (simp add: ex length_exprs_of)
  moreover have "\<forall>t\<in>set (experiments B). \<exists>cfg\<in>set (configs B). \<exists>cmp\<in>set (compositions B).
           t = (exp_name C (cfg ++ cmp), cfg ++ cmp, env B)"
    by (auto simp add: ex set_exprs_of)
  ultimately show ?thesis using ex by blast
qed

lemma configs_P: "expand_configs D_P (combine_choices grid_P) =
   [D_P, D_P ++ [''Initial Pressure'' \<mapsto> Num 7000], D_P ++ [''Initial Pressure'' \<mapsto> Num 10000]]"
proof -
  have 1: "[''Initial Pressure'' \<mapsto> Num 7000] \<noteq> D_P"
    by (rule map_neq [of _ "''modes''"]) (simp add: D_P_def)
  have 2: "[''Initial Pressure'' \<mapsto> Num 10000] \<noteq> D_P"
    by (rule map_neq [of _ "''modes''"]) (simp add: D_P_def)
  from 1 2 show ?thesis by (simp add: expand_configs_eq grid_P_def)
qed

theorem experiment_set_size_witness:
  "length (configs (fst (MeltsBatch_init C0 [comp_A, comp_B] [''.''] D_P grid_P None))) = 3
   \<and> length (compositions (fst (MeltsBatch_init C0 [comp_A, comp_B] [''.''] D_P grid_P None))) = 2
   \<and> length (experiments (fst (MeltsBatch_init C0 [comp_A, comp_B] [''.''] D_P grid_P None))) = 6"
proof -
  let ?B = "fst (MeltsBatch_init C0 [comp_A, comp_B] [''.''] D_P grid_P None)"
  have c: "length (configs ?B) = 3"
    by (simp add: init_fields(2) [OF refl] configs_P)
  have m: "length (compositions ?B) = 2"
    by (simp add: init_fields(3) [OF refl])
  have e: "length (experiments ?B) = length (configs ?B) * length (compositions ?B)"
    by (rule conjunct1 [OF experiment_set_size [OF refl]])
  show ?thesis unfolding e c m by simp
qed

lemma experiments_batch_of:
  "experiments (batch_of comps) = map (\<lambda>x. (title_namer x, x, ''default env'')) comps"
  by (simp add: batch_of_def MeltsBatch_init_def Let_def expand_configs_eq exprs_of_def env_or_def
      C0_def)

lemma dir_batch_of: "dir (batch_of comps) = [''.'']"
  by (simp add: batch_of_def init_fields(4) [OF refl])

text \<open>
  C5 (name collisions are detected before any run and are fatal). The constructor has no
  such check. Two different compositions with the same title get the same name from a
  namer that reads the title; the constructor returns a batch holding both under that
  name, and running the batch launches both.
\<close>

theorem name_collision_undetected:
  "comp_A \<noteq> comp_A2
   \<and> map fst (experiments (batch_of [comp_A, comp_A2])) = [''A'', ''A'']
   \<and> map (fst \<circ> snd) (experiments (batch_of [comp_A, comp_A2])) = [comp_A, comp_A2]
   \<and> fst (MeltsBatch_run C0 True None True 0 5 (fresh (batch_of [comp_A, comp_A2]) {})) = Returned
   \<and> logged (snd (MeltsBatch_run C0 True None True 0 5 (fresh (batch_of [comp_A, comp_A2]) {})))
       = [Starting 2, Start ''A'', Finished ''A'', Start ''A'', Finished ''A'', Complete 5]"
proof -
  have 1: "comp_A \<noteq> comp_A2"
    by (rule map_neq [of _ "''SiO2''"]) (simp add: comp_A_def comp_A2_def)
  have 2: "experiments (batch_of [comp_A, comp_A2])
      = [(''A'', comp_A, ''default env''), (''A'', comp_A2, ''default env'')]"
    by (simp add: experiments_batch_of title_namer_def comp_A_def comp_A2_def)
  have 3: "fst (MeltsBatch_run C0 True None True 0 5 (fresh (batch_of [comp_A, comp_A2]) {})) = Returned"
    by (simp add: MeltsBatch_run_def run_entry_def selected_def fresh_def experiments_batch_of
      title_namer_def dir_batch_of
      run_body_def apply_exclude_def launch_def set_exp_def comp_A_def comp_A2_def exclude_ref_def deref_def assign_def
      C0_def ctl0_def MeltsExperiment_init_def MeltsExperiment_run_def joinpath_def dom_def)
  have 4: "logged (snd (MeltsBatch_run C0 True None True 0 5 (fresh (batch_of [comp_A, comp_A2]) {})))
       = [Starting 2, Start ''A'', Finished ''A'', Start ''A'', Finished ''A'', Complete 5]"
    by (simp add: MeltsBatch_run_def run_entry_def selected_def fresh_def experiments_batch_of
      title_namer_def dir_batch_of
      run_body_def apply_exclude_def launch_def set_exp_def comp_A_def comp_A2_def exclude_ref_def deref_def assign_def
      C0_def ctl0_def MeltsExperiment_init_def MeltsExperiment_run_def joinpath_def dom_def)
  from 1 2 3 4 show ?thesis by simp
qed

text \<open>
  C5, as the constructor behaves: the names of the experiment set are the names of all
  merged records, in order, and two merged records with the same name are both entries
  of the set under that name.
\<close>

theorem init_keeps_colliding_names:
  assumes "B = fst (MeltsBatch_init C comps d D ch e)"
    and "e1 \<in> set (exprs_of (configs B) (compositions B))"
    and "e2 \<in> set (exprs_of (configs B) (compositions B))"
    and "exp_name C e1 = exp_name C e2"
  shows "map fst (experiments B) = map (exp_name C) (exprs_of (configs B) (compositions B))
     \<and> (exp_name C e1, e1, env B) \<in> set (experiments B)
     \<and> (exp_name C e1, e2, env B) \<in> set (experiments B)"
proof -
  note ex = init_fields(1) [OF assms(1)]
  have "map fst (experiments B) = map (exp_name C) (exprs_of (configs B) (compositions B))"
    by (simp add: ex comp_def)
  moreover have "(exp_name C e1, e1, env B) \<in> set (experiments B)"
    using assms(2) by (auto simp add: ex)
  moreover have "(exp_name C e2, e2, env B) \<in> set (experiments B)"
    using assms(3) by (auto simp add: ex)
  ultimately show ?thesis using assms(4) by simp
qed

theorem init_keeps_colliding_names_witness:
  "title_namer comp_A = title_namer comp_A2
   \<and> (''A'', comp_A, ''default env'') \<in> set (experiments (batch_of [comp_A, comp_A2]))
   \<and> (''A'', comp_A2, ''default env'') \<in> set (experiments (batch_of [comp_A, comp_A2]))"
proof -
  let ?B = "fst (MeltsBatch_init C0 [comp_A, comp_A2] [''.''] Map.empty [] None)"
  have x: "exprs_of (configs ?B) (compositions ?B) = [comp_A, comp_A2]"
    by (simp add: init_fields(2,3) [OF refl] expand_configs_eq exprs_of_def)
  have n: "exp_name C0 comp_A = ''A''" "exp_name C0 comp_A2 = ''A''"
    by (simp_all add: C0_def title_namer_def comp_A_def comp_A2_def)
  have v: "env ?B = ''default env''"
    by (simp add: MeltsBatch_init_def Let_def env_or_def C0_def)
  have t: "title_namer comp_A = title_namer comp_A2"
    by (simp add: title_namer_def comp_A_def comp_A2_def)
  from init_keeps_colliding_names [OF refl, of comp_A C0 "[comp_A, comp_A2]" "[''.'']" Map.empty "[]" None comp_A2]
  show ?thesis
    unfolding x n v batch_of_def using t by simp
qed

section \<open>The commands of one run\<close>

text \<open>
  C10 (the commands of one run). Whenever the controller can be created and written
  to, \<open>MeltsExperiment.run\<close> makes exactly three calls on it: the creation, one write of
  the three tokens 3, then 1 for a true and 0 for a false \<open>superliquidus_start\<close>, then 4,
  with \<open>wait=True\<close>, and the termination. In every case the calls made are an initial
  part of these three, so nothing else is ever sent.
\<close>

theorem experiment_run_commands:
  "(controller C (New (title M @ ''.melts'') ''environment.txt'' (folder M)) = None \<longrightarrow>
    controller C (Write [3, if sls then 1 else 0, 4] True lg) = None \<longrightarrow>
      snd (MeltsExperiment_run C M lg sls)
        = [New (title M @ ''.melts'') ''environment.txt'' (folder M),
           Write [3, if sls then 1 else 0, 4] True lg,
           Terminate])
   \<and> prefix (snd (MeltsExperiment_run C M lg sls))
        [New (title M @ ''.melts'') ''environment.txt'' (folder M),
         Write [3, if sls then 1 else 0, 4] True lg,
         Terminate]"
  by (cases sls) (auto simp add: MeltsExperiment_run_def Let_def split: option.splits)

theorem experiment_run_commands_witness:
  "snd (MeltsExperiment_run C0 M0 False True)
     = [New ''good.melts'' ''environment.txt'' [''.'', ''good''], Write [3, 1, 4] True False, Terminate]
   \<and> snd (MeltsExperiment_run C0 M0 False False)
     = [New ''good.melts'' ''environment.txt'' [''.'', ''good''], Write [3, 0, 4] True False, Terminate]"
proof -
  have a: "controller C0 (New (title M0 @ ''.melts'') ''environment.txt'' (folder M0)) = None"
    by (simp add: C0_def ctl0_def M0_def)
  have b: "controller C0 (Write [3, if sls then 1 else 0, 4] True False) = None" for sls
    by (simp add: C0_def ctl0_def)
  from experiment_run_commands [of C0 M0 True False] experiment_run_commands [of C0 M0 False False]
    a b [of True] b [of False]
  show ?thesis by (simp add: M0_def)
qed

section \<open>Frame facts of the loop body\<close>

lemma deref_simps [simp]:
  "deref r (set_exp i e s) = deref r s"
  "deref r (s\<lparr>logged := lg\<rparr>) = deref r s"
  "deref r (s\<lparr>fs := files\<rparr>) = deref r s"
  "deref r (s\<lparr>calls := cs\<rparr>) = deref r s"
  "deref r (assign r l s) = l"
  by (simp_all add: deref_def set_exp_def assign_def split: prod.splits lref.splits)

lemma deref_assign_other: "r' \<noteq> r \<Longrightarrow> deref r' (assign r l s) = deref r' s"
  by (cases r; cases r') (simp_all add: deref_def assign_def)

lemma assign_simps [simp]:
  "self (assign r l s) = self s"
  "logged (assign r l s) = logged s"
  "fs (assign r l s) = fs s"
  "calls (assign r l s) = calls s"
  by (simp_all add: assign_def split: lref.splits)

lemma set_exp_simps [simp]:
  "logged (set_exp i e s) = logged s"
  "fs (set_exp i e s) = fs s"
  "calls (set_exp i e s) = calls s"
  "dir (self (set_exp i e s)) = dir (self s)"
  "started (self (set_exp i e s)) = started (self s)"
  "duration (self (set_exp i e s)) = duration (self s)"
  "paths (self (set_exp i e s)) = paths (self s)"
  "length (experiments (self (set_exp i e s))) = length (experiments (self s))"
  by (simp_all add: set_exp_def split: prod.splits)

lemma set_exp_names [simp]:
  "map fst (experiments (self (set_exp i e s))) = map fst (experiments (self s))"
proof (cases "i < length (experiments (self s))")
  case True
  then have "(map fst (experiments (self s)))[i := fst (experiments (self s) ! i)]
      = map fst (experiments (self s))"
    by (metis list_update_id nth_map)
  then show ?thesis
    by (auto simp add: set_exp_def map_update split: prod.splits)
next
  case False
  then have "length (experiments (self s)) \<le> i" by simp
  then show ?thesis by (simp add: set_exp_def list_update_beyond split: prod.splits)
qed

lemma set_exp_other: "j \<noteq> i \<Longrightarrow> experiments (self (set_exp i e s)) ! j = experiments (self s) ! j"
  by (simp add: set_exp_def split: prod.splits)

lemma modifychem_block_raises: "\<exists>er. fst (modifychem_block C e) = Raised er"
  by (simp add: modifychem_block_def Let_def split: option.splits val.splits)

lemma modifychem_block_KeyError:
  "e ''modifychem'' = Some (Dict m) \<Longrightarrow> fst (modifychem_block C e) = Raised (KeyError ''modifychem'')"
  by (simp add: modifychem_block_def)

lemma list_extend_append:
  "list_extend C l v = Inr l' \<Longrightarrow> l' = l @ (case list_extend C [] v of Inl er \<Rightarrow> [] | Inr x \<Rightarrow> x)"
  by (auto simp add: list_extend_def split: val.splits)

lemma apply_exclude_frame:
  assumes "apply_exclude C r e s = (out, e', s')"
  shows "self s' = self s" "logged s' = logged s" "fs s' = fs s" "calls s' = calls s"
    and "r' \<noteq> r \<Longrightarrow> deref r' s' = deref r' s"
    and "prefix (deref r s) (deref r s')"
    and "out = Returned \<Longrightarrow> deref r s' = deref r s @ exclude_items C e"
  using assms
  by (auto simp add: apply_exclude_def exclude_items_def Let_def deref_assign_other
      dest: list_extend_append split: option.splits sum.splits)

lemma launch_frame:
  assumes "launch C r sls n e v s = (out, s')"
  shows "self s' = self s" "deref r' s' = deref r' s"
    and "out = Returned \<Longrightarrow> logged s' = logged s @ [Start n, Finished n]"
  using assms
  by (auto simp add: launch_def Let_def deref_def split: option.splits sum.splits prod.splits outcome.splits lref.splits)


text \<open>A record that has the key \<open>modifychem\<close> ends the body with an error, whatever
  the directive holds.\<close>

lemma run_body_modifychem:
  assumes "''modifychem'' \<in> dom (record_at s i)"
  shows "\<exists>er. fst (run_body C r sls i s) = Raised er"
proof -
  obtain n e v where x: "experiments (self s) ! i = (n, e, v)" by (cases "experiments (self s) ! i")
  obtain er e1 where m: "modifychem_block C e = (Raised er, e1)"
    using modifychem_block_raises [of C e] by (cases "modifychem_block C e") auto
  from assms x m show ?thesis by (simp add: run_body_def record_at_def)
qed

lemma run_body_cases:
  assumes "run_body C r sls i s = (out, s')"
  obtains (chem) er e1 where "''modifychem'' \<in> dom (record_at s i)"
      "out = Raised er" "s' = set_exp i e1 s"
  | (excl) er e2 s1 where "''modifychem'' \<notin> dom (record_at s i)"
      "apply_exclude C r (record_at s i) s = (Raised er, e2, s1)"
      "out = Raised er" "s' = set_exp i e2 s1"
  | (go) e2 s1 v where "''modifychem'' \<notin> dom (record_at s i)"
      "apply_exclude C r (record_at s i) s = (Returned, e2, s1)"
      "launch C r sls (name_at s i) e2 v (set_exp i e2 s1) = (out, s')"
proof -
  obtain n e v where x: "experiments (self s) ! i = (n, e, v)" by (cases "experiments (self s) ! i")
  show ?thesis
  proof (cases "''modifychem'' \<in> dom e")
    case True
    obtain er e1 where m: "modifychem_block C e = (Raised er, e1)"
      using modifychem_block_raises [of C e] by (cases "modifychem_block C e") auto
    from True x m assms show ?thesis
      by (intro chem [of er e1]) (auto simp add: run_body_def record_at_def)
  next
    case False
    obtain o2 e2 s1 where a: "apply_exclude C r e s = (o2, e2, s1)"
      by (cases "apply_exclude C r e s")
    show ?thesis
    proof (cases o2)
      case Returned
      with False x a assms show ?thesis
        by (intro go [of e2 s1 v]) (auto simp add: run_body_def record_at_def name_at_def)
    next
      case (Raised er)
      with False x a assms show ?thesis
        by (intro excl [of er e2 s1]) (auto simp add: run_body_def record_at_def)
    qed
  qed
qed

lemma run_body_frame_all:
  assumes "run_body C r sls i s = (out, s')"
  shows "map fst (experiments (self s')) = map fst (experiments (self s))
    \<and> dir (self s') = dir (self s)
    \<and> started (self s') = started (self s)
    \<and> duration (self s') = duration (self s)
    \<and> paths (self s') = paths (self s)
    \<and> (j \<noteq> i \<longrightarrow> experiments (self s') ! j = experiments (self s) ! j)
    \<and> (r' \<noteq> r \<longrightarrow> deref r' s' = deref r' s)
    \<and> prefix (deref r s) (deref r s')"
  using assms
proof (cases rule: run_body_cases)
  case (chem er e1)
  then show ?thesis by (simp add: set_exp_other)
next
  case (excl er e2 s1)
  note f = apply_exclude_frame [OF excl(2)]
  from excl(4) show ?thesis
    by (simp add: set_exp_other f(1) f(5) f(6))
next
  case (go e2 s1 v)
  note f = apply_exclude_frame [OF go(2)]
  note l = launch_frame [OF go(3)]
  show ?thesis
    by (simp add: l(1) l(2) set_exp_other f(1) f(5) f(6))
qed





section \<open>The loop\<close>

lemma run_loop_append:
  "run_loop C r sls (pre @ post) s =
     (case run_loop C r sls pre s of
        (Raised er, s') \<Rightarrow> (Raised er, s')
      | (Returned, s') \<Rightarrow> run_loop C r sls post s')"
  by (induction pre arbitrary: s) (simp_all split: prod.splits outcome.splits)

lemma run_loop_frame_all:
  "run_loop C r sls idxs s = (out, s') \<Longrightarrow>
     map fst (experiments (self s')) = map fst (experiments (self s))
     \<and> dir (self s') = dir (self s)
     \<and> started (self s') = started (self s)
     \<and> duration (self s') = duration (self s)
     \<and> paths (self s') = paths (self s)
     \<and> (j \<notin> set idxs \<longrightarrow> experiments (self s') ! j = experiments (self s) ! j)
     \<and> (r' \<noteq> r \<longrightarrow> deref r' s' = deref r' s)
     \<and> prefix (deref r s) (deref r s')"
proof (induction idxs arbitrary: s)
  case Nil
  then show ?case by simp
next
  case (Cons i rest)
  obtain o1 s1 where b: "run_body C r sls i s = (o1, s1)" by (cases "run_body C r sls i s")
  note f = run_body_frame_all [OF b, of j r']
  show ?case
  proof (cases o1)
    case (Raised er)
    with Cons.prems b have "s' = s1" by simp
    with f show ?thesis by simp
  next
    case Returned
    with Cons.prems b have "run_loop C r sls rest s1 = (out, s')" by simp
    from Cons.IH [OF this] f show ?thesis
      by (auto intro: prefix_order.trans)
  qed
qed

lemma run_loop_frame:
  assumes "run_loop C r sls idxs s = (out, s')"
  shows "map fst (experiments (self s')) = map fst (experiments (self s))"
    and "dir (self s') = dir (self s)"
    and "started (self s') = started (self s)"
    and "duration (self s') = duration (self s)"
    and "paths (self s') = paths (self s)"
    and "j \<notin> set idxs \<Longrightarrow> experiments (self s') ! j = experiments (self s) ! j"
    and "r' \<noteq> r \<Longrightarrow> deref r' s' = deref r' s"
    and "prefix (deref r s) (deref r s')"
  using run_loop_frame_all [OF assms, of j r'] by simp_all



section \<open>Entering and leaving the run\<close>





lemma run_entry_facts:
  assumes "run_entry ow exclude t0 s = (idxs, s3)"
  shows "idxs = selected ow s"
    and "logged s3 = logged s @ [Starting (length idxs)]"
    and "started (self s3) = Some t0"
    and "experiments (self s3) = experiments (self s)"
    and "duration (self s3) = duration (self s)"
    and "paths (self s3) = paths (self s)"
    and "deref (exclude_ref exclude) s3 = (case exclude of None \<Rightarrow> run_defaults s | Some l \<Rightarrow> l)"
    and "exclude \<noteq> None \<Longrightarrow> run_defaults s3 = run_defaults s"
  using assms
  by (auto simp add: run_entry_def Let_def selected_def exclude_ref_def deref_def split: option.splits)

lemma run_returned:
  assumes "MeltsBatch_run C ow exclude sls t0 t1 s = (Returned, s')"
  obtains s3 s4 where "run_entry ow exclude t0 s = (selected ow s, s3)"
    and "run_loop C (exclude_ref exclude) sls (selected ow s) s3 = (Returned, s4)"
    and "s' = s4\<lparr>self := (self s4)\<lparr>duration := Some (t1 - t0), paths := Some []\<rparr>,
                  logged := logged s4 @ [Complete (t1 - t0)]\<rparr>"
proof -
  obtain idxs s3 where e: "run_entry ow exclude t0 s = (idxs, s3)"
    by (cases "run_entry ow exclude t0 s")
  note f = run_entry_facts [OF e]
  obtain o4 s4 where l: "run_loop C (exclude_ref exclude) sls idxs s3 = (o4, s4)"
    by (cases "run_loop C (exclude_ref exclude) sls idxs s3")
  from run_loop_frame(3) [OF l] f(3) have st: "started (self s4) = Some t0" by simp
  from assms e l st have "o4 = Returned" 
    by (cases o4) (simp_all add: MeltsBatch_run_def)
  with assms e l st f(1) that show ?thesis
    by (simp add: MeltsBatch_run_def)
qed

lemma run_raised:
  assumes "run_entry ow exclude t0 s = (idxs, s3)"
    and "run_loop C (exclude_ref exclude) sls idxs s3 = (Raised er, s4)"
  shows "MeltsBatch_run C ow exclude sls t0 t1 s = (Raised er, s4)"
  using assms by (simp add: MeltsBatch_run_def)

text \<open>Every run that returns stores the elapsed time and an empty list of paths.\<close>

lemma run_paths_empty:
  assumes "MeltsBatch_run C ow exclude sls t0 t1 s = (Returned, s')"
  shows "paths (self s') = Some [] \<and> duration (self s') = Some (t1 - t0)"
  using assms by (rule run_returned) simp

section \<open>Evaluation on the concrete inputs\<close>

lemmas run_eval =
  MeltsBatch_run_def run_entry_def selected_def fresh_def experiments_batch_of title_namer_def
  dir_batch_of run_body_def apply_exclude_def launch_def set_exp_def exclude_ref_def deref_def
  assign_def C0_def ctl0_def MeltsExperiment_init_def MeltsExperiment_run_def joinpath_def
  dom_def list_extend_def modifychem_block_def name_at_def record_at_def
  exclude_items_def

lemma batch_of_unset:
  "started (batch_of comps) = None" "duration (batch_of comps) = None" "paths (batch_of comps) = None"
  by (simp_all add: batch_of_def MeltsBatch_init_def Let_def)

section \<open>The claims about the run\<close>

text \<open>
  C1 (a \<open>modifychem\<close> directive is overlaid and the rest rescaled to a total of 100).
  The record below has SiO2 60 and MgO 40, which sum to 100, and the directive
  \<open>{MgO: 30}\<close>. The run pops the directive and then reads it from the record it was
  popped from: the run ends with a \<open>KeyError\<close> before anything is overlaid, rescaled
  or launched.
\<close>

theorem modifychem_run_raises:
  "fst (MeltsBatch_run C0 True None True 0 5 (fresh (batch_of [comp_mod]) {}))
     = Raised (KeyError ''modifychem'')
   \<and> logged (snd (MeltsBatch_run C0 True None True 0 5 (fresh (batch_of [comp_mod]) {})))
     = [Starting 1]
   \<and> calls (snd (MeltsBatch_run C0 True None True 0 5 (fresh (batch_of [comp_mod]) {}))) = []"
  by (simp add: run_eval comp_mod_def)

text \<open>
  C2 (an error in one experiment is caught and the batch goes on). The controller
  cannot start the run named \<open>bad\<close>. The error leaves \<open>MeltsBatch.run\<close>; the experiment
  \<open>good\<close> that follows is never started and no duration is recorded.
\<close>

theorem run_aborts_on_error:
  "fst (MeltsBatch_run C0 True None True 0 5 (fresh (batch_of [comp_bad, comp_good]) {}))
     = Raised (External ''ProcessSpawnError'')
   \<and> logged (snd (MeltsBatch_run C0 True None True 0 5 (fresh (batch_of [comp_bad, comp_good]) {})))
     = [Starting 2, Start ''bad'']
   \<and> calls (snd (MeltsBatch_run C0 True None True 0 5 (fresh (batch_of [comp_bad, comp_good]) {})))
     = [New ''bad.melts'' ''environment.txt'' [''.'', ''bad'']]
   \<and> duration (self (snd (MeltsBatch_run C0 True None True 0 5 (fresh (batch_of [comp_bad, comp_good]) {}))))
     = None"
  by (simp add: run_eval comp_bad_def comp_good_def batch_of_unset)

text \<open>
  C2, as the loop behaves: when the experiments before position \<open>i\<close> of the selection
  return and the body raises at \<open>i\<close>, the run ends with that error in the state the body
  left; the experiments after \<open>i\<close> play no part, and duration and paths stay as they
  were.
\<close>

theorem run_error_propagates:
  assumes "run_entry ow exclude t0 s = (pre @ i # post, s3)"
    and "run_loop C (exclude_ref exclude) sls pre s3 = (Returned, sa)"
    and "run_body C (exclude_ref exclude) sls i sa = (Raised er, sb)"
  shows "MeltsBatch_run C ow exclude sls t0 t1 s = (Raised er, sb)
     \<and> duration (self sb) = duration (self s) \<and> paths (self sb) = paths (self s)"
proof -
  have l: "run_loop C (exclude_ref exclude) sls (pre @ i # post) s3 = (Raised er, sb)"
    by (simp add: run_loop_append assms(2) assms(3))
  note e = run_entry_facts [OF assms(1)]
  note f = run_loop_frame [OF l]
  from run_raised [OF assms(1) l] f(4) f(5) e(5) e(6) show ?thesis by simp
qed

theorem run_error_propagates_witness:
  "fst (MeltsBatch_run C0 True None True 0 5 (fresh (batch_of [comp_good, comp_bad, comp_A]) {}))
     = Raised (External ''ProcessSpawnError'')
   \<and> paths (self (snd (MeltsBatch_run C0 True None True 0 5
        (fresh (batch_of [comp_good, comp_bad, comp_A]) {})))) = None"
proof -
  let ?s = "fresh (batch_of [comp_good, comp_bad, comp_A]) {}"
  let ?s3 = "snd (run_entry True None 0 ?s)"
  let ?sa = "snd (run_loop C0 (exclude_ref None) True [0] ?s3)"
  let ?sb = "snd (run_body C0 (exclude_ref None) True 1 ?sa)"
  have "fst (run_entry True None 0 ?s) = [0] @ 1 # [2]"
    by (simp add: run_eval)
  then have e: "run_entry True None 0 ?s = ([0] @ 1 # [2], ?s3)"
    by (metis prod.collapse)
  have "fst (run_loop C0 (exclude_ref None) True [0] ?s3) = Returned"
    by (simp add: run_eval comp_good_def comp_bad_def comp_A_def)
  then have l: "run_loop C0 (exclude_ref None) True [0] ?s3 = (Returned, ?sa)"
    by (metis prod.collapse)
  have "fst (run_body C0 (exclude_ref None) True 1 ?sa) = Raised (External ''ProcessSpawnError'')"
    by (simp add: run_eval comp_good_def comp_bad_def comp_A_def)
  then have b: "run_body C0 (exclude_ref None) True 1 ?sa = (Raised (External ''ProcessSpawnError''), ?sb)"
    by (metis prod.collapse)
  have p: "paths (self ?s) = None"
    by (simp add: fresh_def batch_of_unset)
  from run_error_propagates [OF e l b, of 5] p show ?thesis by simp
qed








text \<open>
  C9 (duration and run paths are recorded after the loop). One experiment is executed,
  its folder is made and the duration is stored, and the stored list of paths is empty:
  the statement that appends the folder to \<open>paths\<close> is commented out (lines 214, 215).
\<close>

theorem paths_never_recorded:
  "fst (MeltsBatch_run C0 True None True 0 5 (fresh (batch_of [comp_good]) {})) = Returned
   \<and> logged (snd (MeltsBatch_run C0 True None True 0 5 (fresh (batch_of [comp_good]) {})))
     = [Starting 1, Start ''good'', Finished ''good'', Complete 5]
   \<and> fs (snd (MeltsBatch_run C0 True None True 0 5 (fresh (batch_of [comp_good]) {})))
     = {[''.'', ''good'']}
   \<and> duration (self (snd (MeltsBatch_run C0 True None True 0 5 (fresh (batch_of [comp_good]) {}))))
     = Some 5
   \<and> paths (self (snd (MeltsBatch_run C0 True None True 0 5 (fresh (batch_of [comp_good]) {}))))
     = Some []"
  by (simp add: run_eval comp_good_def)

end
